theory Spec2Isabelle
  imports Main
begin

section \<open>Rotating a matrix: \<^verbatim>\<open>src/matrix/rotate_matrix.py\<close>\<close>

text \<open>
  A matrix is a Python \<^verbatim>\<open>list[list[int]]\<close>: a list of rows, each a list of
  unbounded integers. Nothing in the type makes the rows equally long.
\<close>

type_synonym matrix = "int list list"

subsection \<open>The grid constructor\<close>

text \<open>
  \<^verbatim>\<open>range(n)\<close> for an integer \<open>n\<close>: the integers \<open>0, ..., n - 1\<close>, none when
  \<open>n \<le> 0\<close>.
\<close>

definition range_py :: "int \<Rightarrow> int list" where
  "range_py n = [0..n - 1]"

text \<open>
  \<^verbatim>\<open>row_size = abs(row_size) or 4\<close>: Python's \<^verbatim>\<open>or\<close> yields its left operand
  unless that is falsy, and the only falsy integer is \<open>0\<close>.
\<close>

definition make_matrix :: "int \<Rightarrow> matrix" where
  "make_matrix row_size =
     (let row_size = (if \<bar>row_size\<bar> \<noteq> 0 then \<bar>row_size\<bar> else 4)
      in map (\<lambda>y. map (\<lambda>x. 1 + x + y * row_size) (range_py row_size)) (range_py row_size))"

subsection \<open>The primitive transforms\<close>

text \<open>
  \<^verbatim>\<open>zip(*matrix)\<close>: with no argument at all \<^verbatim>\<open>zip\<close> yields nothing. Otherwise
  each round asks every row for its next element and yields the tuple of them; the
  first row that is exhausted ends the iteration, and the elements still waiting in
  longer rows are dropped. A tuple is modelled as a list.
\<close>

function zip_star :: "'a list list \<Rightarrow> 'a list list" where
  "zip_star rows =
     (if rows = [] \<or> [] \<in> set rows then []
      else map hd rows # zip_star (map tl rows))"
  by pat_completeness auto
termination
proof (relation "measure (\<lambda>rows. length (hd rows))")
  show "wf (measure (\<lambda>rows::'a list list. length (hd rows)))"
    by simp
next
  fix rows :: "'a list list"
  assume "\<not> (rows = [] \<or> [] \<in> set rows)"
  then have "rows \<noteq> []" and "hd rows \<noteq> []"
    by (cases rows; auto)+
  then show "(map tl rows, rows) \<in> measure (\<lambda>rows. length (hd rows))"
    by (simp add: hd_map)
qed

declare zip_star.simps [simp del]

text \<open>\<^verbatim>\<open>[list(x) for x in zip(*matrix)]\<close>: every tuple becomes a fresh list.\<close>

definition transpose_matrix :: "matrix \<Rightarrow> matrix" where
  "transpose_matrix matrix = [x. x \<leftarrow> zip_star matrix]"

text \<open>\<^verbatim>\<open>matrix[::-1]\<close>: the rows in reverse order.\<close>

definition reverse_row :: "matrix \<Rightarrow> matrix" where
  "reverse_row matrix = rev matrix"

text \<open>\<^verbatim>\<open>[x[::-1] for x in matrix]\<close>: every row reversed, the rows in place.\<close>

definition reverse_column :: "matrix \<Rightarrow> matrix" where
  "reverse_column matrix = [rev x. x \<leftarrow> matrix]"

subsection \<open>The rotations\<close>

definition rotate_90 :: "matrix \<Rightarrow> matrix" where
  "rotate_90 matrix = reverse_row (transpose_matrix matrix)"

definition rotate_180 :: "matrix \<Rightarrow> matrix" where
  "rotate_180 matrix = reverse_row (reverse_column matrix)"

definition rotate_270 :: "matrix \<Rightarrow> matrix" where
  "rotate_270 matrix = reverse_column (transpose_matrix matrix)"

subsection \<open>Shapes\<close>

text \<open>A matrix has shape \<open>R \<times> C\<close> when it has \<open>R\<close> rows, each of length \<open>C\<close>.\<close>

definition has_shape :: "matrix \<Rightarrow> nat \<Rightarrow> nat \<Rightarrow> bool" where
  "has_shape m R C = (length m = R \<and> list_all (\<lambda>r. length r = C) m)"

subsection \<open>List objects and their identity\<close>

text \<open>
  Python lists are objects: a matrix variable holds a reference to an outer list whose
  elements are references to row lists. The store keeps the row objects
  (\<^verbatim>\<open>list[int]\<close>) and the outer objects (\<^verbatim>\<open>list[list[int]]\<close>) apart, each
  addressed by its position; an allocation appends, and nothing is freed while a
  caller still holds a reference.
\<close>

record heap =
  row_objs :: "int list list"
  grid_objs :: "nat list list"

definition new_row :: "int list \<Rightarrow> heap \<Rightarrow> nat \<times> heap" where
  "new_row xs h = (length (row_objs h), h\<lparr>row_objs := row_objs h @ [xs]\<rparr>)"

definition new_grid :: "nat list \<Rightarrow> heap \<Rightarrow> nat \<times> heap" where
  "new_grid rs h = (length (grid_objs h), h\<lparr>grid_objs := grid_objs h @ [rs]\<rparr>)"

fun new_rows :: "int list list \<Rightarrow> heap \<Rightarrow> nat list \<times> heap" where
  "new_rows [] h = ([], h)"
| "new_rows (xs # xss) h =
     (case new_row xs h of (r, h1) \<Rightarrow>
        (case new_rows xss h1 of (rs, h2) \<Rightarrow> (r # rs, h2)))"

text \<open>The value a reference to an outer list denotes: its rows, read through.\<close>

definition rows_of :: "heap \<Rightarrow> nat \<Rightarrow> matrix" where
  "rows_of h g = map (\<lambda>r. row_objs h ! r) (grid_objs h ! g)"

text \<open>
  The functions of the source once more, on references. A slice \<^verbatim>\<open>[::-1]\<close>, a
  list comprehension and \<^verbatim>\<open>list(x)\<close> each build a new list object; the source has
  no assignment to an element, no \<^verbatim>\<open>append\<close> and no \<^verbatim>\<open>reverse()\<close> on a list
  it was given. \<^verbatim>\<open>matrix[::-1]\<close> copies the references to the rows, not the rows.
\<close>

definition transpose_heap :: "nat \<Rightarrow> heap \<Rightarrow> nat \<times> heap" where
  "transpose_heap matrix h =
     (case new_rows [x. x \<leftarrow> zip_star (rows_of h matrix)] h of (rs, h1) \<Rightarrow> new_grid rs h1)"

definition reverse_row_heap :: "nat \<Rightarrow> heap \<Rightarrow> nat \<times> heap" where
  "reverse_row_heap matrix h = new_grid (rev (grid_objs h ! matrix)) h"

definition reverse_column_heap :: "nat \<Rightarrow> heap \<Rightarrow> nat \<times> heap" where
  "reverse_column_heap matrix h =
     (case new_rows [rev x. x \<leftarrow> rows_of h matrix] h of (rs, h1) \<Rightarrow> new_grid rs h1)"

definition rotate_90_heap :: "nat \<Rightarrow> heap \<Rightarrow> nat \<times> heap" where
  "rotate_90_heap matrix h =
     (case transpose_heap matrix h of (t, h1) \<Rightarrow> reverse_row_heap t h1)"

definition rotate_180_heap :: "nat \<Rightarrow> heap \<Rightarrow> nat \<times> heap" where
  "rotate_180_heap matrix h =
     (case reverse_column_heap matrix h of (t, h1) \<Rightarrow> reverse_row_heap t h1)"

definition rotate_270_heap :: "nat \<Rightarrow> heap \<Rightarrow> nat \<times> heap" where
  "rotate_270_heap matrix h =
     (case transpose_heap matrix h of (t, h1) \<Rightarrow> reverse_column_heap t h1)"

text \<open>A reference to an outer list is valid when it and the rows it names are allocated.\<close>

definition valid_grid :: "heap \<Rightarrow> nat \<Rightarrow> bool" where
  "valid_grid h g =
     (g < length (grid_objs h) \<and> list_all (\<lambda>r. r < length (row_objs h)) (grid_objs h ! g))"

text \<open>Every object of \<open>h\<close> is still in \<open>h'\<close>, at its address and with its contents.\<close>

definition untouched :: "heap \<Rightarrow> heap \<Rightarrow> bool" where
  "untouched h h' =
     (take (length (row_objs h)) (row_objs h') = row_objs h \<and>
      take (length (grid_objs h)) (grid_objs h') = grid_objs h)"

text \<open>
  What a call leaves behind: the old store untouched, so the argument and its rows
  as they were; the result a reference allocated by the call, hence not the
  argument; and the result denoting what the function on values computes.
\<close>

definition fresh_result :: "(nat \<Rightarrow> heap \<Rightarrow> nat \<times> heap) \<Rightarrow> (matrix \<Rightarrow> matrix) \<Rightarrow> nat \<Rightarrow> heap \<Rightarrow> bool" where
  "fresh_result op_heap op g h =
     (case op_heap g h of (res, h') \<Rightarrow>
        untouched h h' \<and> grid_objs h' ! g = grid_objs h ! g \<and> rows_of h' g = rows_of h g \<and>
        res \<noteq> g \<and> length (grid_objs h) \<le> res \<and> valid_grid h' res \<and>
        rows_of h' res = op (rows_of h g))"

section \<open>Basic facts\<close>

lemma length_range_py: "length (range_py n) = nat n"
  by (simp add: range_py_def)

lemma nth_range_py: "k < nat n \<Longrightarrow> range_py n ! k = int k"
  by (simp add: range_py_def)

lemma make_matrix_neg: "make_matrix (- n) = make_matrix n"
  by (simp add: make_matrix_def)

lemma make_matrix_zero: "make_matrix 0 = make_matrix 4"
  by (simp add: make_matrix_def)

lemma make_matrix_shape:
  "has_shape (make_matrix row_size)
     (nat (if \<bar>row_size\<bar> \<noteq> 0 then \<bar>row_size\<bar> else 4)) (nat (if \<bar>row_size\<bar> \<noteq> 0 then \<bar>row_size\<bar> else 4))"
  by (simp add: make_matrix_def has_shape_def list_all_iff length_range_py Let_def)

lemma make_matrix_cell:
  assumes "n = (if \<bar>row_size\<bar> \<noteq> 0 then \<bar>row_size\<bar> else 4)" and "y < nat n" and "x < nat n"
  shows "make_matrix row_size ! y ! x = 1 + int x + int y * n"
  using assms by (simp add: make_matrix_def Let_def length_range_py nth_range_py)

lemma zip_star_Nil: "zip_star [] = []"
  by (simp add: zip_star.simps)

lemma zip_star_step:
  "rows \<noteq> [] \<Longrightarrow> [] \<notin> set rows \<Longrightarrow> zip_star rows = map hd rows # zip_star (map tl rows)"
  by (subst zip_star.simps) simp

lemma zip_star_exhausted: "[] \<in> set rows \<Longrightarrow> zip_star rows = []"
  by (subst zip_star.simps) simp

lemma length_zip_star_le: "r \<in> set rows \<Longrightarrow> length (zip_star rows) \<le> length r"
proof (induction rows arbitrary: r rule: zip_star.induct)
  case (1 rows)
  show ?case
  proof (cases "rows = [] \<or> [] \<in> set rows")
    case True
    then show ?thesis using "1.prems" by (auto simp: zip_star_exhausted)
  next
    case False
    then have "tl r \<in> set (map tl rows)" using "1.prems" by simp
    from "1.IH"[OF False this] have "length (zip_star (map tl rows)) \<le> length r - 1" by simp
    moreover have "r \<noteq> []" using False "1.prems" by auto
    ultimately show ?thesis using False by (simp add: zip_star_step) (cases r; simp)
  qed
qed

lemma length_zip_star_attained: "rows \<noteq> [] \<Longrightarrow> \<exists>r\<in>set rows. length (zip_star rows) = length r"
proof (induction rows rule: zip_star.induct)
  case (1 rows)
  show ?case
  proof (cases "[] \<in> set rows")
    case True
    then show ?thesis by (auto simp: zip_star_exhausted intro!: bexI[of _ "[]"])
  next
    case False
    with "1.prems" have ne: "\<not> (rows = [] \<or> [] \<in> set rows)" by simp
    have "map tl rows \<noteq> []" using "1.prems" by simp
    from "1.IH"[OF ne this] obtain r where r: "r \<in> set rows" "length (zip_star (map tl rows)) = length (tl r)"
      by auto
    have "r \<noteq> []" using False r by auto
    then have "length (zip_star rows) = length r" using r ne by (simp add: zip_star_step)
    then show ?thesis using r by blast
  qed
qed

lemma length_zip_star: "rows \<noteq> [] \<Longrightarrow> length (zip_star rows) = Min (length ` set rows)"
proof -
  assume ne: "rows \<noteq> []"
  from length_zip_star_attained[OF ne] obtain r where "r \<in> set rows" "length (zip_star rows) = length r" by auto
  then have "length (zip_star rows) \<in> length ` set rows" by auto
  moreover have "\<And>y. y \<in> length ` set rows \<Longrightarrow> length (zip_star rows) \<le> y"
    by (auto simp: length_zip_star_le)
  ultimately have "Min (length ` set rows) = length (zip_star rows)"
    by (intro Min_eqI) simp_all
  then show ?thesis by simp
qed

lemma nth_zip_star: "i < length (zip_star rows) \<Longrightarrow> zip_star rows ! i = map (\<lambda>r. r ! i) rows"
proof (induction rows arbitrary: i rule: zip_star.induct)
  case (1 rows)
  show ?case
  proof (cases "rows = [] \<or> [] \<in> set rows")
    case True
    then show ?thesis using "1.prems" by (auto simp: zip_star_exhausted zip_star_Nil)
  next
    case False
    show ?thesis
    proof (cases i)
      case 0
      have "\<And>r. r \<in> set rows \<Longrightarrow> hd r = r ! 0"
        using False by (metis hd_conv_nth)
      then show ?thesis using False 0 by (simp add: zip_star_step)
    next
      case (Suc j)
      then have "j < length (zip_star (map tl rows))" using "1.prems" False by (simp add: zip_star_step)
      have "\<And>r. r \<in> set rows \<Longrightarrow> tl r ! j = r ! Suc j"
      proof -
        fix r assume "r \<in> set rows"
        then have "r \<noteq> []" using False by auto
        then show "tl r ! j = r ! Suc j" by (cases r) simp_all
      qed
      with "1.IH"[OF False \<open>j < length (zip_star (map tl rows))\<close>] show ?thesis using False Suc
        by (simp add: zip_star_step)
    qed
  qed
qed

lemma transpose_matrix_no_columns: "[] \<in> set m \<Longrightarrow> transpose_matrix m = []"
  by (simp add: transpose_matrix_def zip_star_exhausted)

lemma transpose_matrix_Nil: "transpose_matrix [] = []"
  by (simp add: transpose_matrix_def zip_star_Nil)

lemma transpose_matrix_zip_star: "transpose_matrix m = zip_star m"
  by (simp add: transpose_matrix_def)

lemma length_transpose_matrix:
  "m \<noteq> [] \<Longrightarrow> length (transpose_matrix m) = Min (length ` set m)"
  by (simp add: transpose_matrix_zip_star length_zip_star)

lemma nth_transpose_matrix:
  "i < length (transpose_matrix m) \<Longrightarrow> transpose_matrix m ! i = map (\<lambda>r. r ! i) m"
  by (simp add: transpose_matrix_zip_star nth_zip_star)

lemma transpose_matrix_row_length:
  assumes "r \<in> set (transpose_matrix m)"
  shows "length r = length m"
proof -
  from assms obtain i where "i < length (transpose_matrix m)" "transpose_matrix m ! i = r"
    by (auto simp: in_set_conv_nth)
  then show ?thesis by (auto simp: nth_transpose_matrix)
qed

lemma has_shape_rows: "has_shape m R C \<Longrightarrow> r \<in> set m \<Longrightarrow> length r = C"
  by (simp add: has_shape_def list_all_iff)

lemma has_shape_nth: "has_shape m R C \<Longrightarrow> j < R \<Longrightarrow> length (m ! j) = C"
  by (simp add: has_shape_def list_all_length)

lemma length_transpose_matrix_shape:
  assumes "has_shape m R C" and "0 < R"
  shows "length (transpose_matrix m) = C"
proof -
  from assms have ne: "m \<noteq> []" by (auto simp: has_shape_def)
  then obtain r where "r \<in> set m" by (cases m) auto
  then have "length ` set m = {C}" using assms(1) by (force simp: has_shape_def list_all_iff)
  then show ?thesis using ne by (simp add: length_transpose_matrix)
qed

lemma has_shape_transpose_matrix:
  assumes "has_shape m R C" and "0 < R"
  shows "has_shape (transpose_matrix m) C R"
  using assms length_transpose_matrix_shape[OF assms]
  by (auto simp: has_shape_def list_all_iff transpose_matrix_row_length)

lemma transpose_matrix_rev: "transpose_matrix (rev m) = map rev (transpose_matrix m)"
proof (cases "m = []")
  case True
  then show ?thesis by (simp add: transpose_matrix_Nil)
next
  case False
  then have len: "length (transpose_matrix (rev m)) = length (transpose_matrix m)"
    by (simp add: length_transpose_matrix)
  show ?thesis
  proof (rule nth_equalityI)
    show "length (transpose_matrix (rev m)) = length (map rev (transpose_matrix m))"
      using len by simp
  next
    fix i assume "i < length (transpose_matrix (rev m))"
    then show "transpose_matrix (rev m) ! i = map rev (transpose_matrix m) ! i"
      using len by (simp add: nth_transpose_matrix rev_map)
  qed
qed

lemma transpose_matrix_map_rev:
  assumes "has_shape m R C"
  shows "transpose_matrix (map rev m) = rev (transpose_matrix m)"
proof (cases "m = []")
  case True
  then show ?thesis by (simp add: transpose_matrix_Nil)
next
  case False
  then have R: "0 < R" using assms by (auto simp: has_shape_def)
  have sh: "has_shape (map rev m) R C"
    using assms by (simp add: has_shape_def list_all_iff)
  have l1: "length (transpose_matrix (map rev m)) = C"
    by (rule length_transpose_matrix_shape[OF sh R])
  have l2: "length (transpose_matrix m) = C"
    by (rule length_transpose_matrix_shape[OF assms R])
  show ?thesis
  proof (rule nth_equalityI)
    show "length (transpose_matrix (map rev m)) = length (rev (transpose_matrix m))"
      using l1 l2 by simp
  next
    fix i assume "i < length (transpose_matrix (map rev m))"
    then have i: "i < C" using l1 by simp
    then have "C - Suc i < C" by simp
    have "\<And>r. r \<in> set m \<Longrightarrow> rev r ! i = r ! (C - Suc i)"
      using has_shape_rows[OF assms] i by (simp add: rev_nth)
    then show "transpose_matrix (map rev m) ! i = rev (transpose_matrix m) ! i"
      using i l1 l2 \<open>C - Suc i < C\<close> by (simp add: nth_transpose_matrix rev_nth)
  qed
qed

lemma transpose_matrix_involution:
  assumes "has_shape m R C" and "0 < C"
  shows "transpose_matrix (transpose_matrix m) = m"
proof (cases "m = []")
  case True
  then show ?thesis by (simp add: transpose_matrix_Nil)
next
  case False
  then have R: "0 < R" using assms by (auto simp: has_shape_def)
  have lenm: "length m = R" using assms by (simp add: has_shape_def)
  have l1: "length (transpose_matrix m) = C"
    by (rule length_transpose_matrix_shape[OF assms(1) R])
  have l2: "length (transpose_matrix (transpose_matrix m)) = R"
    by (rule length_transpose_matrix_shape[OF has_shape_transpose_matrix[OF assms(1) R] assms(2)])
  show ?thesis
  proof (rule nth_equalityI)
    show "length (transpose_matrix (transpose_matrix m)) = length m"
      using l2 lenm by simp
  next
    fix j assume "j < length (transpose_matrix (transpose_matrix m))"
    then have j: "j < R" using l2 by simp
    have "transpose_matrix (transpose_matrix m) ! j = map (\<lambda>r. r ! j) (transpose_matrix m)"
      using j l2 by (simp add: nth_transpose_matrix)
    also have "\<dots> = m ! j"
    proof (rule nth_equalityI)
      show "length (map (\<lambda>r. r ! j) (transpose_matrix m)) = length (m ! j)"
        using l1 has_shape_nth[OF assms(1) j] by simp
    next
      fix i assume "i < length (map (\<lambda>r. r ! j) (transpose_matrix m))"
      then have "i < C" using l1 by simp
      then show "map (\<lambda>r. r ! j) (transpose_matrix m) ! i = m ! j ! i"
        using l1 j lenm by (simp add: nth_transpose_matrix)
    qed
    finally show "transpose_matrix (transpose_matrix m) ! j = m ! j" .
  qed
qed

lemma has_shape_reverse_row: "has_shape m R C \<Longrightarrow> has_shape (reverse_row m) R C"
  by (simp add: has_shape_def reverse_row_def list_all_iff)

lemma has_shape_reverse_column: "has_shape m R C \<Longrightarrow> has_shape (reverse_column m) R C"
  by (simp add: has_shape_def reverse_column_def list_all_iff)

lemma reverse_row_involution: "reverse_row (reverse_row m) = m"
  by (simp add: reverse_row_def)

lemma reverse_column_involution: "reverse_column (reverse_column m) = m"
  by (simp add: reverse_column_def comp_def)

lemma reverse_row_column_commute:
  "reverse_row (reverse_column m) = reverse_column (reverse_row m)"
  by (simp add: reverse_row_def reverse_column_def rev_map)

lemma rotate_90_twice:
  assumes "has_shape m R C" and "0 < C"
  shows "rotate_90 (rotate_90 m) = rotate_180 m"
proof -
  have "rotate_90 (rotate_90 m) = rev (map rev (transpose_matrix (transpose_matrix m)))"
    by (simp add: rotate_90_def reverse_row_def transpose_matrix_rev)
  also have "\<dots> = rev (map rev m)"
    by (simp add: transpose_matrix_involution[OF assms])
  finally show ?thesis
    by (simp add: rotate_180_def reverse_row_def reverse_column_def)
qed

lemma has_shape_rotate_180: "has_shape m R C \<Longrightarrow> has_shape (rotate_180 m) R C"
  by (simp add: rotate_180_def has_shape_reverse_row has_shape_reverse_column)

lemma rotate_180_twice: "rotate_180 (rotate_180 m) = m"
  by (simp add: rotate_180_def reverse_row_def reverse_column_def rev_map comp_def)

lemma has_shape_rotate_90:
  "has_shape m R C \<Longrightarrow> 0 < R \<Longrightarrow> has_shape (rotate_90 m) C R"
  by (simp add: rotate_90_def has_shape_reverse_row has_shape_transpose_matrix)

lemma rotate_90_row_length: "r \<in> set (rotate_90 m) \<Longrightarrow> length r = length m"
  by (simp add: rotate_90_def reverse_row_def transpose_matrix_row_length)

lemma rotate_90_four_times:
  assumes "has_shape m R C" and "0 < C"
  shows "rotate_90 (rotate_90 (rotate_90 (rotate_90 m))) = m"
proof -
  have "rotate_90 (rotate_90 (rotate_90 (rotate_90 m))) = rotate_90 (rotate_90 (rotate_180 m))"
    by (simp add: rotate_90_twice[OF assms])
  also have "\<dots> = rotate_180 (rotate_180 m)"
    by (rule rotate_90_twice[OF has_shape_rotate_180[OF assms(1)] assms(2)])
  finally show ?thesis by (simp add: rotate_180_twice)
qed

lemma rotate_90_thrice: "rotate_90 (rotate_90 (rotate_90 m)) = rotate_270 m"
proof (cases "m = []")
  case True
  then show ?thesis
    by (simp add: rotate_90_def rotate_270_def reverse_row_def reverse_column_def
        transpose_matrix_Nil)
next
  case False
  have "has_shape (rotate_90 m) (length (rotate_90 m)) (length m)"
    by (simp add: has_shape_def list_all_iff rotate_90_row_length)
  moreover have "0 < length m" using False by simp
  ultimately have "rotate_90 (rotate_90 (rotate_90 m)) = rotate_180 (rotate_90 m)"
    by (rule rotate_90_twice)
  then show ?thesis
    by (simp add: rotate_180_def rotate_90_def rotate_270_def reverse_row_def
        reverse_column_def rev_map)
qed

section \<open>Grid construction\<close>

text \<open>
  Claim C4. For every integer \<open>row_size\<close>, with \<open>n = |row_size|\<close> when that is not
  zero and \<open>n = 4\<close> otherwise, make_matrix returns a grid of \<open>n\<close> rows of length \<open>n\<close>
  whose cell at row \<open>y\<close>, column \<open>x\<close> is \<open>1 + x + y * n\<close>. So the sign of the argument
  does not matter and \<open>0\<close> gives the grid of \<open>4\<close>. The function has no failing branch:
  \<^verbatim>\<open>abs\<close>, \<^verbatim>\<open>or\<close>, \<^verbatim>\<open>range\<close> and the arithmetic are defined on every integer.
\<close>

theorem make_matrix_contract:
  "(let n = (if \<bar>row_size\<bar> \<noteq> 0 then \<bar>row_size\<bar> else 4) in
      has_shape (make_matrix row_size) (nat n) (nat n) \<and>
      (\<forall>y<nat n. \<forall>x<nat n. make_matrix row_size ! y ! x = 1 + int x + int y * n)) \<and>
   make_matrix row_size = make_matrix (- row_size) \<and>
   make_matrix 0 = make_matrix 4"
  unfolding Let_def
  using make_matrix_shape [of row_size] make_matrix_cell [of _ row_size]
  by (simp add: make_matrix_neg make_matrix_zero)

theorem make_matrix_contract_witness:
  "has_shape (make_matrix (- 2)) 2 2 \<and> make_matrix (- 2) ! 1 ! 0 = 3 \<and>
   make_matrix (- 2) = make_matrix 2 \<and> make_matrix 2 = [[1, 2], [3, 4]]"
  using make_matrix_contract [of "- 2"]
  by (simp add: make_matrix_def range_py_def upto.simps has_shape_def)

section \<open>The empty grid\<close>

text \<open>
  Claim C9. On the grid with no rows, \<open>[]\<close>, each of transpose, reverse_row,
  reverse_column, rotate_90, rotate_180 and rotate_270 returns \<open>[]\<close>. None of
  them has a failing branch: the model of each is a total function with a plain
  list as its result.
\<close>

theorem empty_grid_all_operations:
  "transpose_matrix [] = [] \<and> reverse_row [] = [] \<and> reverse_column [] = [] \<and>
   rotate_90 [] = [] \<and> rotate_180 [] = [] \<and> rotate_270 [] = []"
  by (simp add: transpose_matrix_Nil reverse_row_def reverse_column_def
      rotate_90_def rotate_180_def rotate_270_def)

section \<open>Transpose\<close>

text \<open>
  Claim C3. A grid of shape \<open>R \<times> C\<close> with at least one row is transposed into a
  grid of shape \<open>C \<times> R\<close> whose entry at row \<open>i\<close>, column \<open>j\<close> is the input's entry
  at row \<open>j\<close>, column \<open>i\<close>; and the transpose of \<open>[[1,2,3],[4,5,6]]\<close> is
  \<open>[[1,4],[2,5],[3,6]]\<close>. (The shape and the entries need \<open>R \<ge> 1\<close> only; the
  claim's \<open>C \<ge> 1\<close> is not used.)
\<close>

theorem transpose_matrix_contract:
  "(has_shape m R C \<and> 0 < R \<longrightarrow>
      has_shape (transpose_matrix m) C R \<and>
      (\<forall>i<C. \<forall>j<R. transpose_matrix m ! i ! j = m ! j ! i)) \<and>
   transpose_matrix [[1, 2, 3], [4, 5, 6]] = [[1, 4], [2, 5], [3, 6]]"
proof (intro conjI impI allI)
  assume a: "has_shape m R C \<and> 0 < R"
  then show "has_shape (transpose_matrix m) C R"
    using has_shape_transpose_matrix [of m R C] by simp
next
  fix i j
  assume a: "has_shape m R C \<and> 0 < R" and "i < C" and "j < R"
  moreover from a have "length (transpose_matrix m) = C"
    using length_transpose_matrix_shape [of m R C] by simp
  moreover from a have "length m = R"
    by (simp add: has_shape_def)
  ultimately show "transpose_matrix m ! i ! j = m ! j ! i"
    by (simp add: nth_transpose_matrix)
next
  show "transpose_matrix [[1, 2, 3], [4, 5, 6]] = [[1, 4], [2, 5], [3, 6]]"
    by (simp add: transpose_matrix_def zip_star.simps)
qed

theorem transpose_matrix_contract_witness:
  "has_shape [[7, 8, 9], [10, 11, 12]] 2 3 \<and>
   has_shape (transpose_matrix [[7, 8, 9], [10, 11, 12]]) 3 2 \<and>
   transpose_matrix [[7, 8, 9], [10, 11, 12]] ! 2 ! 1 = 12"
  using transpose_matrix_contract [of "[[7, 8, 9], [10, 11, 12]]" 2 3]
  by (simp add: has_shape_def)

text \<open>
  Claim C6. Transposing a rectangular grid twice gives the grid back. The grid has
  rows of one length \<open>C \<ge> 1\<close>, as the data model requires (both dimensions at
  least 1); the grid with no rows is covered as well. Rows without any element lie
  outside the data model: there \<^verbatim>\<open>zip\<close> yields nothing and the number of rows is
  lost (\<open>transpose_matrix_no_columns\<close>).
\<close>

theorem transpose_matrix_twice:
  "has_shape m R C \<Longrightarrow> 0 < C \<Longrightarrow> transpose_matrix (transpose_matrix m) = m"
  by (rule transpose_matrix_involution)

theorem transpose_matrix_twice_witness:
  "has_shape [[1, 2, 3], [4, 5, 6]] 2 3 \<and> (0::nat) < 3 \<and>
   transpose_matrix (transpose_matrix [[1, 2, 3], [4, 5, 6]]) = [[1, 2, 3], [4, 5, 6]]"
  using transpose_matrix_twice [of "[[1, 2, 3], [4, 5, 6]]" 2 3]
  by (simp add: has_shape_def)

section \<open>Reversals\<close>

text \<open>
  Claim C7. Reversing the order of the rows twice, or reversing every row twice,
  gives the grid back. Neither law needs the grid to be rectangular.
\<close>

theorem reverse_row_reverse_column_involutions:
  "reverse_row (reverse_row m) = m \<and> reverse_column (reverse_column m) = m"
  by (simp add: reverse_row_involution reverse_column_involution)

section \<open>Rotations\<close>

text \<open>
  Claim C1. On a rectangular grid (rows of one length \<open>C \<ge> 1\<close>, the grids of the
  data model, and the grid with no rows), two rotations by 90 degrees are one
  rotation by 180 degrees.
\<close>

theorem rotate_90_rotate_90_is_rotate_180:
  "has_shape m R C \<Longrightarrow> 0 < C \<Longrightarrow> rotate_90 (rotate_90 m) = rotate_180 m"
  by (rule rotate_90_twice)

theorem rotate_90_rotate_90_is_rotate_180_witness:
  "has_shape [[1, 2, 3], [4, 5, 6]] 2 3 \<and> (0::nat) < 3 \<and>
   rotate_90 (rotate_90 [[1, 2, 3], [4, 5, 6]]) = [[6, 5, 4], [3, 2, 1]]"
  using rotate_90_rotate_90_is_rotate_180 [of "[[1, 2, 3], [4, 5, 6]]" 2 3]
  by (simp add: has_shape_def rotate_180_def reverse_row_def reverse_column_def)

text \<open>
  Claim C2. On a rectangular grid (rows of one length \<open>C \<ge> 1\<close>), square or not, four
  rotations by 90 degrees give the grid back, shape and values.
\<close>

theorem rotate_90_four_times_is_identity:
  "has_shape m R C \<Longrightarrow> 0 < C \<Longrightarrow> rotate_90 (rotate_90 (rotate_90 (rotate_90 m))) = m"
  by (rule rotate_90_four_times)

theorem rotate_90_four_times_is_identity_witness:
  "has_shape [[1, 2, 3], [4, 5, 6]] 2 3 \<and> (0::nat) < 3 \<and>
   rotate_90 (rotate_90 (rotate_90 (rotate_90 [[1, 2, 3], [4, 5, 6]]))) =
     [[1, 2, 3], [4, 5, 6]]"
  using rotate_90_four_times_is_identity [of "[[1, 2, 3], [4, 5, 6]]" 2 3]
  by (simp add: has_shape_def)

text \<open>
  Claim C5. A rotation by 270 degrees is three rotations by 90 degrees, on every
  list of rows, rectangular or not; and the rotation of \<open>[[1,2,3],[4,5,6]]\<close> by 270
  degrees is \<open>[[4,1],[5,2],[6,3]]\<close>.
\<close>

theorem rotate_270_is_three_rotate_90:
  "rotate_270 m = rotate_90 (rotate_90 (rotate_90 m)) \<and>
   rotate_270 [[1, 2, 3], [4, 5, 6]] = [[4, 1], [5, 2], [6, 3]]"
  by (simp add: rotate_90_thrice)
     (simp add: rotate_270_def reverse_column_def transpose_matrix_def zip_star.simps)

section \<open>Rows of unequal length\<close>

text \<open>
  Claim C10. On rows of unequal length the transpose does not fail: it stops at the
  shortest row. Its result has as many rows as the shortest input row has elements,
  each as long as the input has rows, with entry \<open>(i, j)\<close> the input's entry \<open>(j, i)\<close>;
  rotate_90 and rotate_270 return grids of that same truncated shape. The statement
  holds for every list of at least one row, jagged ones among them.
\<close>

theorem jagged_transpose_truncates:
  "m \<noteq> [] \<Longrightarrow>
     has_shape (transpose_matrix m) (Min (length ` set m)) (length m) \<and>
     (\<forall>i<Min (length ` set m). \<forall>j<length m. transpose_matrix m ! i ! j = m ! j ! i) \<and>
     has_shape (rotate_90 m) (Min (length ` set m)) (length m) \<and>
     has_shape (rotate_270 m) (Min (length ` set m)) (length m)"
proof (intro conjI allI impI)
  assume ne: "m \<noteq> []"
  then show t: "has_shape (transpose_matrix m) (Min (length ` set m)) (length m)"
    by (simp add: has_shape_def list_all_iff length_transpose_matrix
        transpose_matrix_row_length)
  from t show "has_shape (rotate_90 m) (Min (length ` set m)) (length m)"
    by (simp add: rotate_90_def has_shape_reverse_row)
  from t show "has_shape (rotate_270 m) (Min (length ` set m)) (length m)"
    by (simp add: rotate_270_def has_shape_reverse_column)
next
  fix i j
  assume "m \<noteq> []" and "i < Min (length ` set m)" and "j < length m"
  then show "transpose_matrix m ! i ! j = m ! j ! i"
    by (simp add: length_transpose_matrix nth_transpose_matrix)
qed

theorem jagged_transpose_truncates_witness:
  "[[1, 2, 3], [4, 5]] \<noteq> ([] :: matrix) \<and>
   transpose_matrix [[1, 2, 3], [4, 5]] = [[1, 4], [2, 5]] \<and>
   has_shape (transpose_matrix [[1, 2, 3], [4, 5]]) 2 2 \<and>
   rotate_90 [[1, 2, 3], [4, 5]] = [[2, 5], [1, 4]] \<and>
   has_shape (rotate_90 [[1, 2, 3], [4, 5]]) 2 2 \<and>
   rotate_270 [[1, 2, 3], [4, 5]] = [[4, 1], [5, 2]] \<and>
   has_shape (rotate_270 [[1, 2, 3], [4, 5]]) 2 2"
  using jagged_transpose_truncates [of "[[1, 2, 3], [4, 5]]"]
  by (simp add: has_shape_def rotate_90_def rotate_270_def reverse_row_def
      reverse_column_def transpose_matrix_def zip_star.simps)

section \<open>Arguments are not mutated\<close>

lemma untouched_refl: "untouched h h"
  by (simp add: untouched_def)

lemma untouched_row_objs: "untouched h h' \<Longrightarrow> \<exists>new. row_objs h' = row_objs h @ new"
  by (metis untouched_def append_take_drop_id)

lemma untouched_grid_objs: "untouched h h' \<Longrightarrow> \<exists>new. grid_objs h' = grid_objs h @ new"
  by (metis untouched_def append_take_drop_id)

lemma untouched_trans: "untouched h h1 \<Longrightarrow> untouched h1 h2 \<Longrightarrow> untouched h h2"
proof -
  assume a: "untouched h h1" and b: "untouched h1 h2"
  from a obtain r1 g1 where 1: "row_objs h1 = row_objs h @ r1" "grid_objs h1 = grid_objs h @ g1"
    using untouched_row_objs untouched_grid_objs by blast
  from b obtain r2 g2 where 2: "row_objs h2 = row_objs h1 @ r2" "grid_objs h2 = grid_objs h1 @ g2"
    using untouched_row_objs untouched_grid_objs by blast
  show ?thesis using 1 2 by (simp add: untouched_def)
qed

lemma untouched_length:
  "untouched h h' \<Longrightarrow> length (row_objs h) \<le> length (row_objs h') \<and> length (grid_objs h) \<le> length (grid_objs h')"
  using untouched_row_objs untouched_grid_objs by fastforce

lemma untouched_grid_nth:
  "untouched h h' \<Longrightarrow> g < length (grid_objs h) \<Longrightarrow> grid_objs h' ! g = grid_objs h ! g"
  using untouched_grid_objs by (fastforce simp: nth_append)

lemma untouched_row_nth:
  "untouched h h' \<Longrightarrow> r < length (row_objs h) \<Longrightarrow> row_objs h' ! r = row_objs h ! r"
  using untouched_row_objs by (fastforce simp: nth_append)

lemma untouched_valid_grid:
  assumes "untouched h h'" and "valid_grid h g"
  shows "valid_grid h' g"
  using assms untouched_length[OF assms(1)] untouched_grid_nth[OF assms(1), of g]
  by (auto simp: valid_grid_def list_all_iff)

lemma untouched_rows_of:
  assumes "untouched h h'" and "valid_grid h g"
  shows "rows_of h' g = rows_of h g"
  using assms untouched_grid_nth[OF assms(1), of g] untouched_row_nth[OF assms(1)]
  by (auto simp: valid_grid_def list_all_iff rows_of_def)

lemma new_rows_effect:
  "new_rows xss h = (rs, h') \<Longrightarrow>
     row_objs h' = row_objs h @ xss \<and> grid_objs h' = grid_objs h \<and>
     rs = [length (row_objs h)..<length (row_objs h) + length xss]"
proof (induction xss arbitrary: h rs h')
  case Nil
  then show ?case by simp
next
  case (Cons xs xss)
  obtain rs1 h2 where step: "new_rows xss (h\<lparr>row_objs := row_objs h @ [xs]\<rparr>) = (rs1, h2)"
    by (cases "new_rows xss (h\<lparr>row_objs := row_objs h @ [xs]\<rparr>)")
  from Cons.IH[OF step]
  have ih: "row_objs h2 = row_objs h @ xs # xss" "grid_objs h2 = grid_objs h"
    "rs1 = [Suc (length (row_objs h))..<Suc (length (row_objs h)) + length xss]"
    by simp_all
  from Cons.prems step have eq: "rs = length (row_objs h) # rs1" "h' = h2"
    by (simp_all add: new_row_def)
  have "[length (row_objs h)..<length (row_objs h) + length (xs # xss)] =
        length (row_objs h) # [Suc (length (row_objs h))..<Suc (length (row_objs h)) + length xss]"
    using upt_conv_Cons [of "length (row_objs h)" "Suc (length (row_objs h)) + length xss"]
    by (simp del: upt_Suc)
  with ih eq show ?case by simp
qed

lemma new_rows_read:
  assumes "new_rows xss h = (rs, h')"
  shows "map (\<lambda>r. row_objs h' ! r) rs = xss" and "list_all (\<lambda>r. r < length (row_objs h')) rs"
proof -
  from new_rows_effect[OF assms]
  have e: "row_objs h' = row_objs h @ xss" "rs = [length (row_objs h)..<length (row_objs h) + length xss]"
    by simp_all
  show "map (\<lambda>r. row_objs h' ! r) rs = xss"
    by (rule nth_equalityI) (simp_all add: e nth_append)
  show "list_all (\<lambda>r. r < length (row_objs h')) rs"
    by (simp add: e list_all_iff)
qed

lemma new_rows_untouched: "new_rows xss h = (rs, h') \<Longrightarrow> untouched h h'"
  using new_rows_effect[of xss h rs h'] by (simp add: untouched_def)

lemma new_grid_untouched: "new_grid rs h = (g, h') \<Longrightarrow> untouched h h'"
  by (auto simp: new_grid_def untouched_def)

lemma alloc_grid_fresh:
  assumes "valid_grid h g" and "new_rows xss h = (rs, h1)" and "new_grid rs h1 = (res, h')"
  shows "untouched h h' \<and> grid_objs h' ! g = grid_objs h ! g \<and> rows_of h' g = rows_of h g \<and>
        res \<noteq> g \<and> length (grid_objs h) \<le> res \<and> valid_grid h' res \<and> rows_of h' res = xss"
proof -
  have u: "untouched h h'"
    using new_rows_untouched[OF assms(2)] new_grid_untouched[OF assms(3)] by (rule untouched_trans)
  have g: "g < length (grid_objs h)" using assms(1) by (simp add: valid_grid_def)
  have res: "res = length (grid_objs h)" "grid_objs h' = grid_objs h @ [rs]" "row_objs h' = row_objs h1"
    using assms(3) new_rows_effect[OF assms(2)] by (auto simp: new_grid_def)
  have "valid_grid h' res"
    using new_rows_read(2)[OF assms(2)] res by (simp add: valid_grid_def)
  moreover have "rows_of h' res = xss"
    using new_rows_read(1)[OF assms(2)] res by (simp add: rows_of_def)
  ultimately show ?thesis
    using u g res(1) untouched_grid_nth[OF u g] untouched_rows_of[OF u assms(1)] by simp
qed

lemma transpose_heap_fresh:
  "valid_grid h g \<Longrightarrow> fresh_result transpose_heap transpose_matrix g h"
proof -
  assume v: "valid_grid h g"
  obtain rs h1 where a: "new_rows [x. x \<leftarrow> zip_star (rows_of h g)] h = (rs, h1)"
    by (cases "new_rows [x. x \<leftarrow> zip_star (rows_of h g)] h")
  obtain res h' where b: "new_grid rs h1 = (res, h')"
    by (cases "new_grid rs h1")
  from alloc_grid_fresh[OF v a b] a b show ?thesis
    by (simp add: fresh_result_def transpose_heap_def transpose_matrix_def)
qed

lemma reverse_column_heap_fresh:
  "valid_grid h g \<Longrightarrow> fresh_result reverse_column_heap reverse_column g h"
proof -
  assume v: "valid_grid h g"
  obtain rs h1 where a: "new_rows [rev x. x \<leftarrow> rows_of h g] h = (rs, h1)"
    by (cases "new_rows [rev x. x \<leftarrow> rows_of h g] h")
  obtain res h' where b: "new_grid rs h1 = (res, h')"
    by (cases "new_grid rs h1")
  from alloc_grid_fresh[OF v a b] a b show ?thesis
    by (simp add: fresh_result_def reverse_column_heap_def reverse_column_def)
qed

lemma reverse_row_heap_fresh:
  "valid_grid h g \<Longrightarrow> fresh_result reverse_row_heap reverse_row g h"
proof -
  assume v: "valid_grid h g"
  let ?h' = "h\<lparr>grid_objs := grid_objs h @ [rev (grid_objs h ! g)]\<rparr>"
  have u: "untouched h ?h'" by (simp add: untouched_def)
  have g: "g < length (grid_objs h)" using v by (simp add: valid_grid_def)
  have "valid_grid ?h' (length (grid_objs h))"
    using v by (simp add: valid_grid_def list_all_iff)
  moreover have "rows_of ?h' (length (grid_objs h)) = rev (rows_of h g)"
    by (simp add: rows_of_def rev_map)
  ultimately show ?thesis
    using u g untouched_grid_nth[OF u g] untouched_rows_of[OF u v]
    by (simp add: fresh_result_def reverse_row_heap_def new_grid_def reverse_row_def)
qed

lemma fresh_result_compose:
  assumes f: "\<And>g h. valid_grid h g \<Longrightarrow> fresh_result f_heap f g h"
    and k: "\<And>g h. valid_grid h g \<Longrightarrow> fresh_result k_heap k g h"
    and v: "valid_grid h g"
  shows "fresh_result (\<lambda>g h. case f_heap g h of (t, h1) \<Rightarrow> k_heap t h1) (\<lambda>m. k (f m)) g h"
proof -
  obtain t h1 where a: "f_heap g h = (t, h1)" by (cases "f_heap g h")
  obtain res h' where b: "k_heap t h1 = (res, h')" by (cases "k_heap t h1")
  from f[OF v] a have 1: "untouched h h1" "length (grid_objs h) \<le> t" "valid_grid h1 t"
    "rows_of h1 t = f (rows_of h g)"
    by (simp_all add: fresh_result_def)
  from k[OF 1(3)] b have 2: "untouched h1 h'" "length (grid_objs h1) \<le> res" "valid_grid h' res"
    "rows_of h' res = k (rows_of h1 t)"
    by (simp_all add: fresh_result_def)
  have u: "untouched h h'" using 1(1) 2(1) by (rule untouched_trans)
  have g: "g < length (grid_objs h)" using v by (simp add: valid_grid_def)
  have "length (grid_objs h) \<le> res" using untouched_length[OF 1(1)] 2(2) by simp
  then show ?thesis
    using a b u g 1 2 untouched_grid_nth[OF u g] untouched_rows_of[OF u v]
    by (simp add: fresh_result_def)
qed

text \<open>
  Claim C8. No operation mutates its argument. For a valid reference \<open>g\<close> to a grid
  in a store \<open>h\<close>, each of transpose, reverse_row, reverse_column, rotate_90,
  rotate_180 and rotate_270 leaves every object of \<open>h\<close> as it was, so the grid at \<open>g\<close>
  and its rows are unchanged, and returns a reference to a list object allocated by
  the call, distinct from \<open>g\<close>, that denotes the function's result on the value of
  the argument.
\<close>

theorem operations_do_not_mutate:
  "valid_grid h g \<Longrightarrow>
     fresh_result transpose_heap transpose_matrix g h \<and>
     fresh_result reverse_row_heap reverse_row g h \<and>
     fresh_result reverse_column_heap reverse_column g h \<and>
     fresh_result rotate_90_heap rotate_90 g h \<and>
     fresh_result rotate_180_heap rotate_180 g h \<and>
     fresh_result rotate_270_heap rotate_270 g h"
proof (intro conjI)
  assume v: "valid_grid h g"
  show "fresh_result transpose_heap transpose_matrix g h"
    by (rule transpose_heap_fresh[OF v])
  show "fresh_result reverse_row_heap reverse_row g h"
    by (rule reverse_row_heap_fresh[OF v])
  show "fresh_result reverse_column_heap reverse_column g h"
    by (rule reverse_column_heap_fresh[OF v])
  have "fresh_result (\<lambda>g h. case transpose_heap g h of (t, h1) \<Rightarrow> reverse_row_heap t h1)
          (\<lambda>m. reverse_row (transpose_matrix m)) g h"
    by (rule fresh_result_compose[OF transpose_heap_fresh reverse_row_heap_fresh v])
  then show "fresh_result rotate_90_heap rotate_90 g h"
    by (simp add: fresh_result_def rotate_90_heap_def rotate_90_def)
  have "fresh_result (\<lambda>g h. case reverse_column_heap g h of (t, h1) \<Rightarrow> reverse_row_heap t h1)
          (\<lambda>m. reverse_row (reverse_column m)) g h"
    by (rule fresh_result_compose[OF reverse_column_heap_fresh reverse_row_heap_fresh v])
  then show "fresh_result rotate_180_heap rotate_180 g h"
    by (simp add: fresh_result_def rotate_180_heap_def rotate_180_def)
  have "fresh_result (\<lambda>g h. case transpose_heap g h of (t, h1) \<Rightarrow> reverse_column_heap t h1)
          (\<lambda>m. reverse_column (transpose_matrix m)) g h"
    by (rule fresh_result_compose[OF transpose_heap_fresh reverse_column_heap_fresh v])
  then show "fresh_result rotate_270_heap rotate_270 g h"
    by (simp add: fresh_result_def rotate_270_heap_def rotate_270_def)
qed

theorem operations_do_not_mutate_witness:
  "valid_grid \<lparr>row_objs = [[1, 2, 3], [4, 5, 6]], grid_objs = [[0, 1]]\<rparr> 0 \<and>
   rotate_90_heap 0 \<lparr>row_objs = [[1, 2, 3], [4, 5, 6]], grid_objs = [[0, 1]]\<rparr> =
     (2, \<lparr>row_objs = [[1, 2, 3], [4, 5, 6], [1, 4], [2, 5], [3, 6]],
          grid_objs = [[0, 1], [2, 3, 4], [4, 3, 2]]\<rparr>) \<and>
   fresh_result rotate_90_heap rotate_90 0
     \<lparr>row_objs = [[1, 2, 3], [4, 5, 6]], grid_objs = [[0, 1]]\<rparr>"
  using operations_do_not_mutate
    [of "\<lparr>row_objs = [[1, 2, 3], [4, 5, 6]], grid_objs = [[0, 1]]\<rparr>" 0]
  by (simp add: valid_grid_def rotate_90_heap_def transpose_heap_def reverse_row_heap_def
      rows_of_def new_row_def new_grid_def zip_star.simps)

end
